theory Spec2Isabelle
  imports Complex_Main
begin

section \<open>Values of the host language and of the libraries\<close>

text \<open>
  The development embeds the class \<open>SkinNameManager\<close> of \<open>skin_name_manager.py\<close>.

  Numbers: the similarity scores are NumPy floats. They are modelled as \<^typ>\<open>real\<close>, so
  rounding, infinities and NaN are outside the model; \<open>score_cutoff / 100.0\<close> is the exact
  quotient (the \<open>OverflowError\<close> of an integer beyond the float range is outside the model
  too). An embedding vector is a list of reals and an embedding matrix the list of its rows.
\<close>

type_synonym vec = "real list"
type_synonym matrix = "vec list"

text \<open>The exceptions that can leave the methods of the class.\<close>

datatype error =
    IndexError
  | TypeError
  | ValueError
  | AssertionError
  | OSError
  | ModelUnavailable

text \<open>
  A file the class reads: it does not exist (\<open>Absent\<close>), reading or decoding it raises
  (\<open>Corrupt\<close>), or it decodes to a value (\<open>Holds\<close>).
\<close>

datatype 'a artifact = Absent | Corrupt | Holds 'a

text \<open>
  What \<open>json.load\<close> returns. \<open>JDict\<close> carries the members of a JSON object in document
  order; the dict that \<open>json.load\<close> builds keeps, for a repeated key, the last value.
\<close>

datatype json =
    JNull
  | JBool bool
  | JNum real
  | JStr string
  | JList "json list"
  | JDict "(string \<times> json) list"

definition members_dict :: "(string \<times> json) list \<Rightarrow> (string \<rightharpoonup> json)" where
  "members_dict ms = map_of (rev ms)"

text \<open>
  What \<open>np.load\<close> returns: an array with its number of dimensions; for a 2-dimensional
  array the second component lists its rows (\<open>shape[0]\<close> is their number).
\<close>

datatype ndarray = Ndarray (ndim: nat) (rows: matrix)

text \<open>
  \<open>shape[1]\<close> of a matrix. The row list of a matrix with no rows does not record its width;
  the model takes 0 there.
\<close>

definition shape1 :: "matrix \<Rightarrow> nat" where
  "shape1 m = (case m of [] \<Rightarrow> 0 | r # _ \<Rightarrow> length r)"

text \<open>The sentence-transformers model object: the name and device it was constructed with.\<close>

datatype st_model = St_model string "string option"

text \<open>The faiss index \<open>IndexFlatIP(d)\<close> with the vectors added to it.\<close>

datatype faiss_index = IndexFlatIP nat matrix

text \<open>
  The two places where the class calls \<open>model.encode\<close>: over the whole catalog
  (\<open>_ensure_embeddings\<close>) and over one query text (\<open>_vector_search\<close>).
\<close>

datatype model_call = Encode_catalog "string list" | Encode_query string

section \<open>The environment of the class\<close>

text \<open>
  Everything the class uses and does not define is a field of the environment:
  the string methods \<open>strip\<close> and \<open>lower\<close>, \<open>str\<close> of a JSON value that is not a
  string, the name-mapping file, the constructor and the \<open>encode\<close> method of the embedding
  model (its last argument is \<open>normalize_embeddings\<close>), whether the optional module
  \<open>faiss\<close> was imported, the \<open>search\<close> method of a faiss index, returning the arrays
  \<open>(scores, indices)\<close>, what writing the cache file raises, if anything, and what a write
  that raised leaves of the file it was to replace (the old content when the write never
  began, a damaged file when it was cut short).
\<close>

record env =
  str_strip :: "string \<Rightarrow> string"
  str_lower :: "string \<Rightarrow> string"
  py_repr :: "json \<Rightarrow> string"
  name_mapping_file :: "json artifact"
  SentenceTransformer :: "string \<Rightarrow> string option \<Rightarrow> error + st_model"
  st_encode :: "st_model \<Rightarrow> string list \<Rightarrow> bool \<Rightarrow> error + matrix"
  faiss_imported :: bool
  index_search :: "faiss_index \<Rightarrow> matrix \<Rightarrow> nat \<Rightarrow> error + (matrix \<times> int list list)"
  np_save_raises :: "error option"
  failed_write :: "ndarray artifact \<Rightarrow> ndarray artifact"

section \<open>The state of a manager\<close>

text \<open>
  The attributes of the object, the array files of the file system by path (the class reads
  the one at \<open>embedding_cache_path\<close> and writes one) and the list of calls made to the model
  so far.
\<close>

record state =
  skin_names :: "string list"
  alias_to_canonical :: "string \<rightharpoonup> string"
  embedding_model_name :: string
  embedding_device :: "string option"
  embedding_model :: "st_model option"
  vector_index :: "faiss_index option"
  embeddings :: "matrix option"
  vector_dim :: "nat option"
  embedding_cache_path :: string
  files :: "string \<Rightarrow> ndarray artifact"
  model_calls :: "model_call list"

text \<open>The texts of the query encodings among the calls to the model, oldest first.\<close>

fun query_texts :: "model_call list \<Rightarrow> string list" where
  "query_texts [] = []"
| "query_texts (Encode_query t # cs) = t # query_texts cs"
| "query_texts (Encode_catalog ns # cs) = query_texts cs"

section \<open>Helpers of the host language\<close>

text \<open>\<open>xs[i]\<close> on a list: a negative index counts from the end, an index out of range raises.\<close>

definition list_getitem :: "'a list \<Rightarrow> int \<Rightarrow> error + 'a" where
  "list_getitem xs i =
     (if 0 \<le> i \<and> i < int (length xs) then Inr (xs ! nat i)
      else if - int (length xs) \<le> i \<and> i < 0 then Inr (xs ! nat (int (length xs) + i))
      else Inl IndexError)"

text \<open>\<open>a[0]\<close> on the first axis of an array.\<close>

definition first_row :: "'a list \<Rightarrow> error + 'a" where
  "first_row a = (case a of [] \<Rightarrow> Inl IndexError | r # _ \<Rightarrow> Inr r)"

text \<open>\<open>str(v)\<close>: a string is itself, any other value is printed by the host language.\<close>

definition py_str :: "env \<Rightarrow> json \<Rightarrow> string" where
  "py_str env v = (case v of JStr s \<Rightarrow> s | _ \<Rightarrow> py_repr env v)"

text \<open>\<open>np.dot(m, v)\<close> of a matrix and a vector; the shapes must be aligned.\<close>

definition dot :: "vec \<Rightarrow> vec \<Rightarrow> real" where
  "dot r v = sum_list (map2 (*) r v)"

definition np_dot :: "matrix \<Rightarrow> vec \<Rightarrow> error + real list" where
  "np_dot m v =
     (if list_all (\<lambda>r. length r = length v) m then Inr (map (\<lambda>r. dot r v) m)
      else Inl ValueError)"

text \<open>
  \<open>np.argsort(-similarities)\<close>: the positions ordered by descending similarity. NumPy's
  default sort leaves the order of equal scores open; the model keeps the earlier position
  first.
\<close>

definition argsort_desc :: "real list \<Rightarrow> nat list" where
  "argsort_desc sims = sort_key (\<lambda>i. - (sims ! i)) [0..<length sims]"

section \<open>\<open>_load_alias_mapping\<close>\<close>

text \<open>
  The dict read from the mapping file: the value of \<open>alias_to_en\<close> when the file holds a
  dict whose \<open>alias_to_en\<close> is a dict, the file's own dict when it holds another dict, and
  the empty dict when the file is absent, unreadable or holds something else.
\<close>

definition comprehension :: "env \<Rightarrow> (string \<times> json) list \<Rightarrow> (string \<rightharpoonup> string)" where
  "comprehension env ms = (\<lambda>alias. map_option (py_str env) (members_dict ms alias))"

definition read_alias_map :: "env \<Rightarrow> (string \<rightharpoonup> string)" where
  "read_alias_map env =
     (case name_mapping_file env of
        Absent \<Rightarrow> Map.empty
      | Corrupt \<Rightarrow> Map.empty
      | Holds data \<Rightarrow>
          (case data of
             JDict ms \<Rightarrow>
               (case members_dict ms ''alias_to_en'' of
                  Some (JDict inner) \<Rightarrow> comprehension env inner
                | _ \<Rightarrow> comprehension env ms)
           | _ \<Rightarrow> Map.empty))"

text \<open>\<open>alias_map.setdefault(name, name)\<close> for each catalog name in turn.\<close>

fun setdefault_all :: "(string \<rightharpoonup> string) \<Rightarrow> string list \<Rightarrow> (string \<rightharpoonup> string)" where
  "setdefault_all alias_map [] = alias_map"
| "setdefault_all alias_map (name # names) =
     setdefault_all
       (case alias_map name of None \<Rightarrow> alias_map(name \<mapsto> name) | Some _ \<Rightarrow> alias_map) names"

text \<open>\<open>{name: name for name in self.skin_names}\<close>.\<close>

definition identity_map :: "string list \<Rightarrow> (string \<rightharpoonup> string)" where
  "identity_map names = (\<lambda>name. if name \<in> set names then Some name else None)"

definition load_alias_mapping :: "env \<Rightarrow> state \<Rightarrow> state" where
  "load_alias_mapping env st =
     (let alias_map = read_alias_map env in
      st\<lparr>alias_to_canonical :=
           (if alias_map = Map.empty then identity_map (skin_names st)
            else setdefault_all alias_map (skin_names st))\<rparr>)"

text \<open>\<open>self.alias_to_canonical.get(name, name)\<close>, the lookup of \<open>find_best_match\<close>.\<close>

definition resolve :: "state \<Rightarrow> string \<Rightarrow> string" where
  "resolve st name = (case alias_to_canonical st name of None \<Rightarrow> name | Some canonical \<Rightarrow> canonical)"

section \<open>\<open>_get_embedding_model\<close>, \<open>_ensure_embeddings\<close>, \<open>_build_vector_index\<close>\<close>

definition get_embedding_model :: "env \<Rightarrow> state \<Rightarrow> (error + st_model) \<times> state" where
  "get_embedding_model env st =
     (case embedding_model st of
        Some model \<Rightarrow> (Inr model, st)
      | None \<Rightarrow>
          (case SentenceTransformer env (embedding_model_name st) (embedding_device st) of
             Inl e \<Rightarrow> (Inl e, st)
           | Inr model \<Rightarrow> (Inr model, st\<lparr>embedding_model := Some model\<rparr>)))"

text \<open>The file that \<open>np.load(cache_path)\<close> reads.\<close>

definition cache_file :: "state \<Rightarrow> ndarray artifact" where
  "cache_file st = files st (embedding_cache_path st)"

text \<open>
  The file that \<open>np.save(cache_path, embeddings)\<close> writes: \<open>np.save\<close> appends \<open>.npy\<close> to a
  path that does not end with it.
\<close>

definition npy_target :: "string \<Rightarrow> string" where
  "npy_target path = (if drop (length path - 4) path = ''.npy'' then path else path @ ''.npy'')"

text \<open>
  The cache as \<open>_ensure_embeddings\<close> accepts it: the file exists, loads, is 2-dimensional and
  has one row per catalog name. An exception while loading is caught and means no cache.
\<close>

definition usable_cache :: "state \<Rightarrow> matrix option" where
  "usable_cache st =
     (case cache_file st of
        Absent \<Rightarrow> None
      | Corrupt \<Rightarrow> None
      | Holds cached \<Rightarrow>
          (if ndim cached = 2 \<and> length (rows cached) = length (skin_names st)
           then Some (rows cached) else None))"

text \<open>The last part of \<open>_ensure_embeddings\<close>: encode the catalog, save the cache, adopt.\<close>

definition recompute_embeddings :: "env \<Rightarrow> state \<Rightarrow> (error + unit) \<times> state" where
  "recompute_embeddings env st =
     (case get_embedding_model env st of
        (Inl e, st1) \<Rightarrow> (Inl e, st1)
      | (Inr model, st1) \<Rightarrow>
          (let st2 = st1\<lparr>model_calls := model_calls st1 @ [Encode_catalog (skin_names st1)]\<rparr> in
           case st_encode env model (skin_names st1) True of
             Inl e \<Rightarrow> (Inl e, st2)
           | Inr emb \<Rightarrow>
               (let target = npy_target (embedding_cache_path st2) in
                case np_save_raises env of
                  Some e \<Rightarrow>
                    (Inl e, st2\<lparr>files := (files st2)(target := failed_write env (files st2 target))\<rparr>)
                | None \<Rightarrow>
                    (Inr (), st2\<lparr>files := (files st2)(target := Holds (Ndarray 2 emb)),
                                 embeddings := Some emb,
                                 vector_dim := Some (shape1 emb)\<rparr>))))"

definition ensure_embeddings :: "env \<Rightarrow> bool \<Rightarrow> state \<Rightarrow> (error + unit) \<times> state" where
  "ensure_embeddings env force_rebuild st =
     (if skin_names st = [] then (Inr (), st\<lparr>embeddings := None, vector_dim := None\<rparr>)
      else if embeddings st \<noteq> None \<and> \<not> force_rebuild then (Inr (), st)
      else
        (case (if \<not> force_rebuild then usable_cache st else None) of
           Some cached \<Rightarrow>
             (Inr (), st\<lparr>embeddings := Some cached, vector_dim := Some (shape1 cached)\<rparr>)
         | None \<Rightarrow> recompute_embeddings env st))"

text \<open>
  \<open>faiss.IndexFlatIP(self._vector_dim)\<close> followed by \<open>index.add(self._embeddings)\<close>: the
  dimension must be an integer and every added vector must have it.
\<close>

definition new_index :: "nat option \<Rightarrow> matrix \<Rightarrow> error + faiss_index" where
  "new_index d emb =
     (case d of
        None \<Rightarrow> Inl TypeError
      | Some n \<Rightarrow>
          (if list_all (\<lambda>r. length r = n) emb then Inr (IndexFlatIP n emb)
           else Inl AssertionError))"

definition build_vector_index :: "env \<Rightarrow> bool \<Rightarrow> state \<Rightarrow> (error + unit) \<times> state" where
  "build_vector_index env force_rebuild st =
     (if skin_names st = [] then (Inr (), st\<lparr>vector_index := None, embeddings := None\<rparr>)
      else
        (case ensure_embeddings env force_rebuild st of
           (Inl e, st1) \<Rightarrow> (Inl e, st1)
         | (Inr _, st1) \<Rightarrow>
             (case embeddings st1 of
                None \<Rightarrow> (Inr (), st1\<lparr>vector_index := None\<rparr>)
              | Some emb \<Rightarrow>
                  (if faiss_imported env then
                     (case new_index (vector_dim st1) emb of
                        Inl e \<Rightarrow> (Inl e, st1)
                      | Inr index \<Rightarrow> (Inr (), st1\<lparr>vector_index := Some index\<rparr>))
                   else (Inr (), st1\<lparr>vector_index := None\<rparr>)))))"

section \<open>\<open>_vector_search\<close>\<close>

text \<open>The accelerated path: \<open>zip(indices[0], scores[0])\<close> of what the index returns.\<close>

definition faiss_results :: "env \<Rightarrow> faiss_index \<Rightarrow> matrix \<Rightarrow> nat \<Rightarrow> error + (int \<times> real) list" where
  "faiss_results env index query_embedding top_k =
     (case index_search env index query_embedding top_k of
        Inl e \<Rightarrow> Inl e
      | Inr (scores, indices) \<Rightarrow>
          (case first_row indices of
             Inl e \<Rightarrow> Inl e
           | Inr i0 \<Rightarrow>
               (case first_row scores of
                  Inl e \<Rightarrow> Inl e
                | Inr s0 \<Rightarrow> Inr (zip i0 s0))))"

text \<open>The fallback path: all similarities, the first \<open>top_k\<close> positions by descending score.\<close>

definition numpy_results :: "matrix \<Rightarrow> matrix \<Rightarrow> nat \<Rightarrow> error + (int \<times> real) list" where
  "numpy_results emb query_embedding top_k =
     (case first_row query_embedding of
        Inl e \<Rightarrow> Inl e
      | Inr q \<Rightarrow>
          (case np_dot emb q of
             Inl e \<Rightarrow> Inl e
           | Inr similarities \<Rightarrow>
               Inr (map (\<lambda>idx. (int idx, similarities ! idx))
                      (take top_k (argsort_desc similarities)))))"

definition vector_search ::
  "env \<Rightarrow> string \<Rightarrow> nat \<Rightarrow> state \<Rightarrow> (error + (int \<times> real) list) \<times> state" where
  "vector_search env query_text top_k st =
     (if skin_names st = [] then (Inr [], st)
      else
        (case ensure_embeddings env False st of
           (Inl e, st1) \<Rightarrow> (Inl e, st1)
         | (Inr _, st1) \<Rightarrow>
             (case get_embedding_model env st1 of
                (Inl e, st2) \<Rightarrow> (Inl e, st2)
              | (Inr model, st2) \<Rightarrow>
                  (let st3 = st2\<lparr>model_calls := model_calls st2 @ [Encode_query query_text]\<rparr> in
                   case st_encode env model [query_text] True of
                     Inl e \<Rightarrow> (Inl e, st3)
                   | Inr query_embedding \<Rightarrow>
                       (case (if faiss_imported env \<and> vector_index st3 = None
                              then build_vector_index env False st3 else (Inr (), st3)) of
                          (Inl e, st4) \<Rightarrow> (Inl e, st4)
                        | (Inr _, st4) \<Rightarrow>
                            (case vector_index st4 of
                               Some index \<Rightarrow> (faiss_results env index query_embedding top_k, st4)
                             | None \<Rightarrow>
                                 (case embeddings st4 of
                                    None \<Rightarrow> (Inr [], st4)
                                  | Some emb \<Rightarrow>
                                      (numpy_results emb query_embedding top_k, st4))))))))"

section \<open>\<open>find_best_match\<close>\<close>

text \<open>The list \<open>search_text_candidates\<close> built from the stripped query.\<close>

definition search_text_candidates :: "env \<Rightarrow> string \<Rightarrow> string list" where
  "search_text_candidates env normalized_query =
     (let normalized_query_lower = str_lower env normalized_query;
          cands = (if normalized_query_lower \<noteq> [] then [normalized_query_lower] else [])
      in if normalized_query \<notin> set cands then cands @ [normalized_query] else cands)"

text \<open>
  The loop variables \<open>(best_idx, best_score, used_query)\<close> and the loop over the
  candidates. The message printed for a candidate reads \<open>self.skin_names[idx]\<close>, which raises
  on an index out of range.
\<close>

type_synonym best = "int option \<times> real \<times> string option"

fun search_loop ::
  "env \<Rightarrow> real \<Rightarrow> string list \<Rightarrow> best \<Rightarrow> state \<Rightarrow> (error + best) \<times> state" where
  "search_loop env similarity_threshold [] b st = (Inr b, st)"
| "search_loop env similarity_threshold (text # texts) b st =
     (case vector_search env text 3 st of
        (Inl e, st1) \<Rightarrow> (Inl e, st1)
      | (Inr [], st1) \<Rightarrow> search_loop env similarity_threshold texts b st1
      | (Inr ((idx, score) # _), st1) \<Rightarrow>
          (case list_getitem (skin_names st1) idx of
             Inl e \<Rightarrow> (Inl e, st1)
           | Inr _ \<Rightarrow>
               (let b1 = (if score > fst (snd b) then (Some idx, score, Some text) else b) in
                if score \<ge> similarity_threshold then (Inr b1, st1)
                else search_loop env similarity_threshold texts b1 st1)))"

text \<open>
  After the loop both branches read \<open>self.skin_names[best_idx]\<close> (the branch below the
  threshold in its message) before they return.
\<close>

definition find_best_match ::
  "env \<Rightarrow> string \<Rightarrow> int \<Rightarrow> state \<Rightarrow> (error + string option) \<times> state" where
  "find_best_match env user_query score_cutoff st =
     (if skin_names st = [] then (Inr None, st)
      else
        (let normalized_query = str_strip env user_query in
         if normalized_query = [] then (Inr None, st)
         else
           (let similarity_threshold = real_of_int score_cutoff / 100 in
            case search_loop env similarity_threshold
                   (search_text_candidates env normalized_query) (None, - 1, None) st of
              (Inl e, st1) \<Rightarrow> (Inl e, st1)
            | (Inr (best_idx, best_score, used_query), st1) \<Rightarrow>
                (case best_idx of
                   None \<Rightarrow> (Inr None, st1)
                 | Some idx \<Rightarrow>
                     (case list_getitem (skin_names st1) idx of
                        Inl e \<Rightarrow> (Inl e, st1)
                      | Inr best_skin_base_name \<Rightarrow>
                          (if best_score < similarity_threshold then (Inr None, st1)
                           else (Inr (Some (resolve st1 best_skin_base_name)), st1)))))))"

section \<open>What a call leaves unchanged\<close>

text \<open>
  The part of the state that no method below writes, together with the query texts sent to
  the model.
\<close>

definition frame :: "state \<Rightarrow> state \<Rightarrow> bool" where
  "frame st st' \<longleftrightarrow>
     skin_names st' = skin_names st \<and> alias_to_canonical st' = alias_to_canonical st \<and>
     embedding_model_name st' = embedding_model_name st \<and>
     embedding_device st' = embedding_device st \<and>
     embedding_cache_path st' = embedding_cache_path st \<and>
     query_texts (model_calls st') = query_texts (model_calls st)"

text \<open>
  What lazy initialisation may do to the model, the matrix with the array files, and the
  index: each is written only while it is still \<open>None\<close>.
\<close>

definition lazy_init :: "state \<Rightarrow> state \<Rightarrow> bool" where
  "lazy_init st st' \<longleftrightarrow>
     (embedding_model st \<noteq> None \<longrightarrow> embedding_model st' = embedding_model st) \<and>
     (embeddings st \<noteq> None \<longrightarrow>
        embeddings st' = embeddings st \<and> vector_dim st' = vector_dim st \<and>
        files st' = files st) \<and>
     (vector_index st \<noteq> None \<longrightarrow> vector_index st' = vector_index st)"

text \<open>The loop variables after the first candidate text, and after the second.\<close>

definition after_first :: "int \<Rightarrow> real \<Rightarrow> string \<Rightarrow> best" where
  "after_first i1 s1 t1 = (if - 1 < s1 then (Some i1, s1, Some t1) else (None, - 1, None))"

definition after_second :: "int \<Rightarrow> real \<Rightarrow> string \<Rightarrow> int \<Rightarrow> real \<Rightarrow> string \<Rightarrow> best" where
  "after_second i1 s1 t1 i2 s2 t2 =
     (if fst (snd (after_first i1 s1 t1)) < s2 then (Some i2, s2, Some t2)
      else after_first i1 s1 t1)"



section \<open>The search of the accelerated index\<close>


section \<open>A small concrete manager\<close>

text \<open>
  A catalog of two names over a toy encoder with unit vectors in the plane, ASCII versions
  of \<open>strip\<close> and \<open>lower\<close>, and a mapping file that renames the first catalog entry.
\<close>

definition is_space :: "char \<Rightarrow> bool" where
  "is_space ch \<longleftrightarrow> ch = CHR '' '' \<or> ch = CHR 0x09 \<or> ch = CHR 0x0A \<or> ch = CHR 0x0D"

definition ascii_strip :: "string \<Rightarrow> string" where
  "ascii_strip s = rev (dropWhile is_space (rev (dropWhile is_space s)))"

definition ascii_lower_char :: "char \<Rightarrow> char" where
  "ascii_lower_char ch =
     (let n = (of_char ch :: nat) in if 65 \<le> n \<and> n \<le> 90 then char_of (n + 32) else ch)"

definition ascii_lower :: "string \<Rightarrow> string" where
  "ascii_lower s = map ascii_lower_char s"

definition toy_vector :: "string \<Rightarrow> vec" where
  "toy_vector t =
     (if t = ''AK Redline'' then [1, 0]
      else if t = ''AWP | Asiimov'' then [0, 1]
      else if t = ''ak'' then [3 / 5, - 4 / 5]
      else if t = ''AK'' then [0, 1]
      else if t = ''AWP'' then [0, 1]
      else [- 3 / 5, - 4 / 5])"

text \<open>An exact inner-product search, in the shape of the arrays a faiss index returns.\<close>

definition exact_ip_search ::
  "faiss_index \<Rightarrow> matrix \<Rightarrow> nat \<Rightarrow> error + (matrix \<times> int list list)" where
  "exact_ip_search index queries k =
     (case index of
        IndexFlatIP d xb \<Rightarrow>
          (case numpy_results xb queries k of
             Inl e \<Rightarrow> Inl e
           | Inr res \<Rightarrow> Inr ([map snd res], [map fst res])))"

definition demo_env :: env where
  "demo_env =
     \<lparr>str_strip = ascii_strip,
      str_lower = ascii_lower,
      py_repr = (\<lambda>v. ''None''),
      name_mapping_file =
        Holds (JDict [(''alias_to_en'', JDict [(''AK Redline'', JStr ''AK-47 | Redline'')])]),
      SentenceTransformer = (\<lambda>name device. Inr (St_model name device)),
      st_encode = (\<lambda>model texts normalize. Inr (map toy_vector texts)),
      faiss_imported = False,
      index_search = exact_ip_search,
      np_save_raises = None,
      failed_write = (\<lambda>old. Corrupt)\<rparr>"

definition demo_state :: state where
  "demo_state =
     \<lparr>skin_names = [''AK Redline'', ''AWP | Asiimov''],
      alias_to_canonical =
        [''AK Redline'' \<mapsto> ''AK-47 | Redline'', ''AWP | Asiimov'' \<mapsto> ''AWP | Asiimov''],
      embedding_model_name = ''toy'',
      embedding_device = None,
      embedding_model = None,
      vector_index = None,
      embeddings = None,
      vector_dim = None,
      embedding_cache_path = ''skin_embeddings.npy'',
      files = (\<lambda>path. Absent),
      model_calls = []\<rparr>"

definition empty_state :: state where
  "empty_state = demo_state\<lparr>skin_names := [], alias_to_canonical := Map.empty\<rparr>"

text \<open>The same environment with faiss imported, and the manager after one call under it.\<close>

definition faiss_env :: env where
  "faiss_env = demo_env\<lparr>faiss_imported := True\<rparr>"

definition warm_state :: state where
  "warm_state = snd (find_best_match faiss_env ''ak'' 50 demo_state)"

text \<open>The same environment without a mapping file.\<close>

definition no_file_env :: env where
  "no_file_env = demo_env\<lparr>name_mapping_file := Absent\<rparr>"





text \<open>The same environment with a mapping file of the flat shape.\<close>

definition flat_env :: env where
  "flat_env =
     demo_env\<lparr>name_mapping_file := Holds (JDict [(''AK Redline'', JStr ''AK-47 | Redline'')])\<rparr>"



section \<open>Frame lemmas\<close>

lemma query_texts_append: "query_texts (xs @ ys) = query_texts xs @ query_texts ys"
  by (induction xs rule: query_texts.induct) simp_all

lemma get_embedding_model_frame: "frame st (snd (get_embedding_model env st))"
  by (simp add: get_embedding_model_def frame_def split: option.splits sum.splits)

lemma get_embedding_model_calls:
  "model_calls (snd (get_embedding_model env st)) = model_calls st"
  by (simp add: get_embedding_model_def split: option.splits sum.splits)

lemma recompute_embeddings_frame: "frame st (snd (recompute_embeddings env st))"
  using get_embedding_model_frame [of st env]
  by (auto simp: recompute_embeddings_def frame_def Let_def query_texts_append split: prod.splits sum.splits option.splits)

lemma ensure_embeddings_frame: "frame st (snd (ensure_embeddings env force st))"
  using recompute_embeddings_frame [of st env]
  by (auto simp: ensure_embeddings_def frame_def split: option.splits)

lemma build_vector_index_frame: "frame st (snd (build_vector_index env force st))"
  using ensure_embeddings_frame [of st env force]
  by (auto simp: build_vector_index_def frame_def split: prod.splits sum.splits option.splits)

lemma vector_search_frame_fields:
  "skin_names (snd (vector_search env t k st)) = skin_names st \<and>
   alias_to_canonical (snd (vector_search env t k st)) = alias_to_canonical st \<and>
   embedding_model_name (snd (vector_search env t k st)) = embedding_model_name st \<and>
   embedding_device (snd (vector_search env t k st)) = embedding_device st \<and>
   embedding_cache_path (snd (vector_search env t k st)) = embedding_cache_path st"
proof (cases "skin_names st = []")
  case True
  then show ?thesis by (simp add: vector_search_def)
next
  case False
  obtain r1 st1 where e: "ensure_embeddings env False st = (r1, st1)" by force
  have f1: "frame st st1" using ensure_embeddings_frame [of st env False] e by simp
  obtain r2 st2 where g: "get_embedding_model env st1 = (r2, st2)" by force
  have f2: "frame st1 st2" using get_embedding_model_frame [of st1 env] g by simp
  define st3 where "st3 = st2\<lparr>model_calls := model_calls st2 @ [Encode_query t]\<rparr>"
  obtain r4 st4 where b: "build_vector_index env False st3 = (r4, st4)" by force
  have f4: "frame st3 st4" using build_vector_index_frame [of st3 env False] b by simp
  show ?thesis
    using False e g b f1 f2 f4
    by (auto simp: vector_search_def frame_def Let_def st3_def split: sum.splits prod.splits option.splits)
qed

lemma vector_search_query_texts:
  assumes "skin_names st \<noteq> []" and "vector_search env t k st = (Inr r, st')"
  shows "query_texts (model_calls st') = query_texts (model_calls st) @ [t]"
proof -
  obtain r1 st1 where e: "ensure_embeddings env False st = (r1, st1)" by force
  have f1: "frame st st1" using ensure_embeddings_frame [of st env False] e by simp
  obtain r2 st2 where g: "get_embedding_model env st1 = (r2, st2)" by force
  have f2: "frame st1 st2" using get_embedding_model_frame [of st1 env] g by simp
  define st3 where "st3 = st2\<lparr>model_calls := model_calls st2 @ [Encode_query t]\<rparr>"
  obtain r4 st4 where b: "build_vector_index env False st3 = (r4, st4)" by force
  have f4: "frame st3 st4" using build_vector_index_frame [of st3 env False] b by simp
  show ?thesis
    using assms e g b f1 f2 f4
    by (auto simp: vector_search_def frame_def Let_def st3_def query_texts_append split: sum.splits prod.splits option.splits if_splits)
qed

section \<open>The loop of \<open>find_best_match\<close>\<close>

lemma list_getitem_mem: "list_getitem xs i = Inr x \<Longrightarrow> x \<in> set xs"
  by (auto simp: list_getitem_def split: if_splits)

lemma vector_search_skin_names:
  "vector_search env t k st = (r, st') \<Longrightarrow> skin_names st' = skin_names st"
  using vector_search_frame_fields [of env t k st] by simp

text \<open>One iteration of the loop, by the way it ends.\<close>

lemma search_loop_step:
  assumes "search_loop env thr (t # ts) b st = (r, st')"
  obtains
    (raised) e where "vector_search env t 3 st = (Inl e, st')" "r = Inl e"
  | (no_result) st1 where "vector_search env t 3 st = (Inr [], st1)"
      "search_loop env thr ts b st1 = (r, st')"
  | (bad_index) idx score rest e where "vector_search env t 3 st = (Inr ((idx, score) # rest), st')"
      "list_getitem (skin_names st') idx = Inl e" "r = Inl e"
  | (stop) idx score rest name where "vector_search env t 3 st = (Inr ((idx, score) # rest), st')"
      "list_getitem (skin_names st') idx = Inr name" "thr \<le> score"
      "r = Inr (if fst (snd b) < score then (Some idx, score, Some t) else b)"
  | (continue) idx score rest name st1 where
      "vector_search env t 3 st = (Inr ((idx, score) # rest), st1)"
      "list_getitem (skin_names st1) idx = Inr name" "score < thr"
      "search_loop env thr ts (if fst (snd b) < score then (Some idx, score, Some t) else b) st1 = (r, st')"
proof -
  obtain r1 st1 where v: "vector_search env t 3 st = (r1, st1)" by force
  show ?thesis
  proof (cases r1)
    case (Inl e)
    with assms v show ?thesis using raised [of e] by simp
  next
    case res: (Inr res)
    show ?thesis
    proof (cases res)
      case Nil
      with assms v res show ?thesis using no_result [of st1] by simp
    next
      case (Cons p ps)
      obtain idx score where p: "p = (idx, score)" by force
      show ?thesis
      proof (cases "list_getitem (skin_names st1) idx")
        case (Inl e)
        with assms v res Cons p show ?thesis using bad_index [of idx score ps e] by simp
      next
        case (Inr name)
        show ?thesis
        proof (cases "thr \<le> score")
          case True
          with assms v res Cons p Inr show ?thesis using stop [of idx score ps name] by (simp add: Let_def)
        next
          case False
          with assms v res Cons p Inr show ?thesis using continue [of idx score ps st1 name]
            by (simp add: Let_def)
        qed
      qed
    qed
  qed
qed

lemma search_loop_frame_fields:
  "search_loop env thr ts b st = (r, st') \<Longrightarrow>
     skin_names st' = skin_names st \<and> alias_to_canonical st' = alias_to_canonical st \<and>
     embedding_model_name st' = embedding_model_name st \<and>
     embedding_device st' = embedding_device st \<and>
     embedding_cache_path st' = embedding_cache_path st"
proof (induction ts arbitrary: b st)
  case Nil
  then show ?case by simp
next
  case (Cons t ts)
  from Cons.prems show ?case
  proof (cases rule: search_loop_step)
    case (no_result st1)
    from Cons.IH [OF no_result(2)] vector_search_frame_fields [of env t 3 st] no_result(1)
    show ?thesis by simp
  next
    case (continue idx score rest name st1)
    from Cons.IH [OF continue(4)] vector_search_frame_fields [of env t 3 st] continue(1)
    show ?thesis by simp
  qed (use vector_search_frame_fields [of env t 3 st] in simp_all)
qed

text \<open>The index the loop keeps has passed the read of \<open>skin_names\<close>.\<close>

lemma search_loop_best_index:
  "search_loop env thr ts b st = (Inr (Some i, s, u), st') \<Longrightarrow>
   (\<And>j. fst b = Some j \<Longrightarrow> \<exists>n. list_getitem (skin_names st) j = Inr n) \<Longrightarrow>
   \<exists>n. list_getitem (skin_names st) i = Inr n"
proof (induction ts arbitrary: b st)
  case Nil
  then show ?case by simp
next
  case (Cons t ts)
  from Cons.prems(1) show ?case
  proof (cases rule: search_loop_step)
    case (no_result st1)
    have n: "skin_names st1 = skin_names st"
      using no_result(1) by (rule vector_search_skin_names)
    from Cons.IH [OF no_result(2)] Cons.prems(2) n show ?thesis by simp
  next
    case (stop idx score rest name)
    have n: "skin_names st' = skin_names st"
      using stop(1) by (rule vector_search_skin_names)
    from stop n Cons.prems(2) show ?thesis by (auto split: if_splits)
  next
    case (continue idx score rest name st1)
    have n: "skin_names st1 = skin_names st"
      using continue(1) by (rule vector_search_skin_names)
    have "\<exists>n. list_getitem (skin_names st1) i = Inr n"
    proof (rule Cons.IH [OF continue(4)])
      fix j
      assume "fst (if fst (snd b) < score then (Some idx, score, Some t) else b) = Some j"
      then show "\<exists>n. list_getitem (skin_names st1) j = Inr n"
        using continue(2) Cons.prems(2) n by (auto split: if_splits)
    qed
    with n show ?thesis by simp
  qed simp_all
qed

text \<open>A run that ends without a match never met a score at or above the threshold, so a
  higher threshold leaves the run as it is.\<close>

lemma search_loop_no_match_mono:
  "search_loop env thr1 ts b st = (Inr (bi, bs, uq), st') \<Longrightarrow>
   thr1 \<le> thr2 \<Longrightarrow> - 1 < thr1 \<Longrightarrow>
   (fst b = None \<Longrightarrow> fst (snd b) \<le> - 1) \<Longrightarrow>
   bi = None \<or> bs < thr1 \<Longrightarrow>
   search_loop env thr2 ts b st = (Inr (bi, bs, uq), st')"
proof (induction ts arbitrary: b st)
  case Nil
  then show ?case by simp
next
  case (Cons t ts)
  from Cons.prems(1) show ?case
  proof (cases rule: search_loop_step)
    case (no_result st1)
    from Cons.IH [OF no_result(2) Cons.prems(2,3,4,5)] no_result(1) show ?thesis by simp
  next
    case (stop idx score rest name)
    from stop(3,4) Cons.prems(3,4,5) have False
      by (cases b) (auto split: if_splits)
    then show ?thesis ..
  next
    case (continue idx score rest name st1)
    let ?b1 = "if fst (snd b) < score then (Some idx, score, Some t) else b"
    have inv: "fst ?b1 = None \<Longrightarrow> fst (snd ?b1) \<le> - 1"
      using Cons.prems(4) by (auto split: if_splits)
    have "search_loop env thr2 ts ?b1 st1 = (Inr (bi, bs, uq), st')"
      using Cons.IH [OF continue(4) Cons.prems(2,3) inv Cons.prems(5)] by simp
    moreover have "\<not> thr2 \<le> score" using continue(3) Cons.prems(2) by simp
    ultimately show ?thesis using continue(1,2) by (simp add: Let_def)
  qed simp_all
qed

section \<open>The frame of \<open>find_best_match\<close>\<close>

lemma find_best_match_frame_fields:
  "skin_names (snd (find_best_match env q c st)) = skin_names st \<and>
   alias_to_canonical (snd (find_best_match env q c st)) = alias_to_canonical st \<and>
   embedding_model_name (snd (find_best_match env q c st)) = embedding_model_name st \<and>
   embedding_device (snd (find_best_match env q c st)) = embedding_device st \<and>
   embedding_cache_path (snd (find_best_match env q c st)) = embedding_cache_path st"
proof -
  let ?l = "search_loop env (real_of_int c / 100)
           (search_text_candidates env (str_strip env q)) (None, - 1, None) st"
  obtain r st1 where l: "?l = (r, st1)" by force
  note f = search_loop_frame_fields [OF l]
  show ?thesis
    using l f by (auto simp: find_best_match_def Let_def split: sum.splits option.splits prod.splits)
qed

section \<open>Lazy initialisation\<close>

lemma lazy_init_refl: "lazy_init st st"
  by (simp add: lazy_init_def)

lemma lazy_init_trans: "lazy_init a b \<Longrightarrow> lazy_init b c \<Longrightarrow> lazy_init a c"
  by (auto simp: lazy_init_def)

lemma get_embedding_model_lazy: "lazy_init st (snd (get_embedding_model env st))"
  by (simp add: get_embedding_model_def lazy_init_def split: option.splits sum.splits)

lemma recompute_embeddings_lazy:
  "embeddings st = None \<Longrightarrow> lazy_init st (snd (recompute_embeddings env st))"
  by (auto simp: recompute_embeddings_def get_embedding_model_def lazy_init_def Let_def
      split: prod.splits sum.splits option.splits)

lemma ensure_embeddings_lazy:
  "skin_names st \<noteq> [] \<Longrightarrow> lazy_init st (snd (ensure_embeddings env False st))"
  using recompute_embeddings_lazy [of st env]
  by (auto simp: ensure_embeddings_def lazy_init_def split: option.splits)

lemma build_vector_index_lazy:
  assumes "skin_names st \<noteq> []" and "vector_index st = None"
  shows "lazy_init st (snd (build_vector_index env False st))"
proof -
  obtain r1 st1 where e: "ensure_embeddings env False st = (r1, st1)" by force
  have "lazy_init st st1" using ensure_embeddings_lazy [OF assms(1), of env] e by simp
  with assms e show ?thesis
    by (auto simp: build_vector_index_def lazy_init_def split: sum.splits option.splits)
qed

lemma vector_search_lazy: "lazy_init st (snd (vector_search env t k st))"
proof (cases "skin_names st = []")
  case True
  then show ?thesis by (simp add: vector_search_def lazy_init_def)
next
  case False
  obtain r1 st1 where e: "ensure_embeddings env False st = (r1, st1)" by force
  have l1: "lazy_init st st1" using ensure_embeddings_lazy [OF False, of env] e by simp
  have n1: "skin_names st1 = skin_names st"
    using ensure_embeddings_frame [of st env False] e by (simp add: frame_def)
  obtain r2 st2 where g: "get_embedding_model env st1 = (r2, st2)" by force
  have l2: "lazy_init st1 st2" using get_embedding_model_lazy [of st1 env] g by simp
  have n2: "skin_names st2 = skin_names st1"
    using get_embedding_model_frame [of st1 env] g by (simp add: frame_def)
  define st3 where "st3 = st2\<lparr>model_calls := model_calls st2 @ [Encode_query t]\<rparr>"
  have l3: "lazy_init st st3"
    using lazy_init_trans [OF l1 l2] by (simp add: lazy_init_def st3_def)
  have n3: "skin_names st3 \<noteq> []" using False n1 n2 by (simp add: st3_def)
  obtain r4 st4 where b: "build_vector_index env False st3 = (r4, st4)" by force
  have l4: "vector_index st3 = None \<Longrightarrow> lazy_init st st4"
    using build_vector_index_lazy [OF n3, of env] b lazy_init_trans [OF l3] by simp
  note l12 = lazy_init_trans [OF l1 l2]
  show ?thesis
    using False e g b l1 l12 l3 l4
    by (auto simp: vector_search_def Let_def st3_def [symmetric] split: sum.splits prod.splits option.splits)
qed

lemma search_loop_lazy:
  "search_loop env thr ts b st = (r, st') \<Longrightarrow> lazy_init st st'"
proof (induction ts arbitrary: b st)
  case Nil
  then show ?case by (simp add: lazy_init_refl)
next
  case (Cons t ts)
  note v = vector_search_lazy [of st env t 3]
  from Cons.prems show ?case
  proof (cases rule: search_loop_step)
    case (no_result st1)
    from Cons.IH [OF no_result(2)] v no_result(1) show ?thesis
      by (auto intro: lazy_init_trans)
  next
    case (continue idx score rest name st1)
    from Cons.IH [OF continue(4)] v continue(1) show ?thesis
      by (auto intro: lazy_init_trans)
  qed (use v in simp_all)
qed

lemma find_best_match_lazy: "lazy_init st (snd (find_best_match env q c st))"
proof -
  let ?l = "search_loop env (real_of_int c / 100)
           (search_text_candidates env (str_strip env q)) (None, - 1, None) st"
  obtain r st1 where l: "?l = (r, st1)" by force
  note f = search_loop_lazy [OF l]
  show ?thesis
    using l f by (auto simp: find_best_match_def Let_def lazy_init_refl split: sum.splits option.splits prod.splits)
qed

section \<open>The alias map after loading\<close>

lemma setdefault_all_apply:
  "setdefault_all m names k =
     (case m k of Some v \<Rightarrow> Some v | None \<Rightarrow> if k \<in> set names then Some k else None)"
  by (induction names arbitrary: m) (auto split: option.splits)

lemma load_alias_mapping_apply:
  "alias_to_canonical (load_alias_mapping env st) k =
     (case read_alias_map env k of
        Some v \<Rightarrow> Some v
      | None \<Rightarrow> if k \<in> set (skin_names st) then Some k else None)"
proof (cases "read_alias_map env = Map.empty")
  case True
  then show ?thesis by (simp add: load_alias_mapping_def identity_map_def)
next
  case False
  then show ?thesis by (simp add: load_alias_mapping_def setdefault_all_apply)
qed

lemma load_alias_mapping_skin_names:
  "skin_names (load_alias_mapping env st) = skin_names st"
  by (simp add: load_alias_mapping_def Let_def)

lemma read_alias_map_no_file:
  "name_mapping_file env = Absent \<or> name_mapping_file env = Corrupt \<or>
   (\<exists>data. name_mapping_file env = Holds data \<and> (\<forall>ms. data \<noteq> JDict ms)) \<Longrightarrow>
   read_alias_map env = Map.empty"
  by (auto simp: read_alias_map_def split: json.splits)

lemma read_demo_redline: "read_alias_map demo_env ''AK Redline'' = Some ''AK-47 | Redline''"
  by (simp add: read_alias_map_def demo_env_def members_dict_def comprehension_def py_str_def)

lemma read_demo_asiimov: "read_alias_map demo_env ''AWP | Asiimov'' = None"
  by (simp add: read_alias_map_def demo_env_def members_dict_def comprehension_def py_str_def)

lemma demo_state_loaded:
  "alias_to_canonical demo_state = alias_to_canonical (load_alias_mapping demo_env demo_state)"
proof
  fix k
  show "alias_to_canonical demo_state k = alias_to_canonical (load_alias_mapping demo_env demo_state) k"
    by (simp add: load_alias_mapping_apply read_alias_map_def demo_env_def members_dict_def
        comprehension_def demo_state_def py_str_def)
qed

section \<open>The result of \<open>find_best_match\<close> from the loop\<close>

lemma find_best_match_Some:
  assumes "find_best_match env q c st = (Inr (Some r), st')"
  shows "\<exists>name \<in> set (skin_names st). r = resolve st name"
proof -
  let ?l = "search_loop env (real_of_int c / 100)
           (search_text_candidates env (str_strip env q)) (None, - 1, None) st"
  obtain lr st1 where l: "?l = (lr, st1)" by force
  note f = search_loop_frame_fields [OF l]
  from assms l obtain idx name where "list_getitem (skin_names st1) idx = Inr name"
    and "r = resolve st1 name"
    by (auto simp: find_best_match_def Let_def split: sum.splits option.splits prod.splits if_splits)
  with f list_getitem_mem [of "skin_names st1" idx name] show ?thesis
    by (auto simp: resolve_def)
qed

lemma search_text_candidates_eq:
  "str_lower env nq \<noteq> [] \<Longrightarrow>
   search_text_candidates env nq =
     (if nq = str_lower env nq then [str_lower env nq] else [str_lower env nq, nq])"
  by (auto simp: search_text_candidates_def Let_def)

lemma vector_search_nonempty_catalog:
  "vector_search env t k st = (Inr (p # ps), st1) \<Longrightarrow> skin_names st \<noteq> []"
  by (auto simp: vector_search_def)

lemma search_loop_first_stops:
  assumes "vector_search env t1 3 st = (Inr ((i1, s1) # rest1), st1)"
    and "list_getitem (skin_names st) i1 = Inr n1" and "thr \<le> s1"
  shows "search_loop env thr (t1 # ts) (None, - 1, None) st = (Inr (after_first i1 s1 t1), st1)"
  using assms vector_search_skin_names [OF assms(1)]
  by (simp add: after_first_def Let_def)

lemma search_loop_single_below:
  assumes "vector_search env t1 3 st = (Inr ((i1, s1) # rest1), st1)"
    and "list_getitem (skin_names st) i1 = Inr n1" and "s1 < thr"
  shows "search_loop env thr [t1] (None, - 1, None) st = (Inr (after_first i1 s1 t1), st1)"
  using assms vector_search_skin_names [OF assms(1)]
  by (simp add: after_first_def Let_def)

lemma search_loop_two_below:
  assumes "vector_search env t1 3 st = (Inr ((i1, s1) # rest1), st1)"
    and "list_getitem (skin_names st) i1 = Inr n1" and "s1 < thr"
    and "vector_search env t2 3 st1 = (Inr ((i2, s2) # rest2), st2)"
    and "list_getitem (skin_names st) i2 = Inr n2"
  shows "search_loop env thr [t1, t2] (None, - 1, None) st
         = (Inr (after_second i1 s1 t1 i2 s2 t2), st2)"
proof -
  have n1: "skin_names st1 = skin_names st" using assms(1) by (rule vector_search_skin_names)
  have n2: "skin_names st2 = skin_names st1" using assms(4) by (rule vector_search_skin_names)
  have "search_loop env thr [t2] (after_first i1 s1 t1) st1
         = (Inr (after_second i1 s1 t1 i2 s2 t2), st2)"
    using assms(4,5) n1 n2 by (simp add: after_second_def Let_def)
  then show ?thesis
    using assms(1,2,3) n1 by (simp add: after_first_def Let_def)
qed

lemma find_best_match_after_loop:
  assumes "skin_names st \<noteq> []" and "str_strip env q \<noteq> []"
    and "search_loop env (real_of_int c / 100)
           (search_text_candidates env (str_strip env q)) (None, - 1, None) st = (Inr b, st1)"
  shows "snd (find_best_match env q c st) = st1"
  using assms
  by (cases b) (auto simp: find_best_match_def Let_def split: option.splits sum.splits)

lemma find_best_match_of_loop:
  assumes "skin_names st \<noteq> []" and "str_strip env q \<noteq> []"
    and "search_loop env (real_of_int c / 100)
           (search_text_candidates env (str_strip env q)) (None, - 1, None) st
         = (Inr (bi, bs, uq), st1)"
  shows "find_best_match env q c st =
     (case bi of
        None \<Rightarrow> (Inr None, st1)
      | Some idx \<Rightarrow>
          (case list_getitem (skin_names st) idx of
             Inl e \<Rightarrow> (Inl e, st1)
           | Inr name \<Rightarrow>
               (if bs < real_of_int c / 100 then Inr None else Inr (Some (resolve st name)), st1)))"
proof -
  have f: "skin_names st1 = skin_names st" "alias_to_canonical st1 = alias_to_canonical st"
    using search_loop_frame_fields [OF assms(3)] by simp_all
  show ?thesis
    using assms f
    by (simp add: find_best_match_def Let_def resolve_def split: option.splits sum.splits)
qed

section \<open>The dict read from the mapping file\<close>

lemma read_alias_map_nested:
  "name_mapping_file env = Holds (JDict ms) \<Longrightarrow>
   members_dict ms ''alias_to_en'' = Some (JDict inner) \<Longrightarrow>
   read_alias_map env alias = map_option (py_str env) (members_dict inner alias)"
  by (simp add: read_alias_map_def comprehension_def)

lemma read_alias_map_flat:
  "name_mapping_file env = Holds (JDict ms) \<Longrightarrow>
   \<forall>inner. members_dict ms ''alias_to_en'' \<noteq> Some (JDict inner) \<Longrightarrow>
   read_alias_map env alias = map_option (py_str env) (members_dict ms alias)"
  by (auto simp: read_alias_map_def comprehension_def split: option.splits json.splits)

lemma members_dict_member:
  "distinct (map fst ms) \<Longrightarrow> (key, v) \<in> set ms \<Longrightarrow> members_dict ms key = Some v"
  using map_of_is_SomeI [of "rev ms" key v] by (simp add: members_dict_def rev_map [symmetric])

section \<open>The cache policy\<close>




section \<open>A cache that is not adopted is not read\<close>











section \<open>The ranking of the fallback path\<close>









section \<open>The claims\<close>

text \<open>
  C1. When the loop of \<open>find_best_match\<close> ends with a best candidate \<open>(idx, score)\<close>, the
  read of \<open>skin_names[idx]\<close> succeeds, and the call returns no-match if the score is strictly
  below \<open>score_cutoff / 100\<close> and otherwise the alias-map resolution of that catalog name:
  when the name maps to \<open>y\<close> in the alias map, the result is \<open>y\<close>.
\<close>

theorem C1_below_threshold_or_alias:
  assumes "skin_names st \<noteq> []" and "str_strip env q \<noteq> []"
    and "search_loop env (real_of_int c / 100)
           (search_text_candidates env (str_strip env q)) (None, - 1, None) st
         = (Inr (Some idx, score, used), st1)"
  shows "\<exists>name. list_getitem (skin_names st) idx = Inr name \<and>
           find_best_match env q c st =
             (if score < real_of_int c / 100 then Inr None else Inr (Some (resolve st name)), st1) \<and>
           (\<forall>y. alias_to_canonical st name = Some y \<longrightarrow> resolve st name = y)"
proof -
  have "\<exists>n. list_getitem (skin_names st) idx = Inr n"
    using assms(3) by (rule search_loop_best_index) simp
  then obtain name where n: "list_getitem (skin_names st) idx = Inr name" ..
  have f: "skin_names st1 = skin_names st" "alias_to_canonical st1 = alias_to_canonical st"
    using search_loop_frame_fields [OF assms(3)] by simp_all
  have "find_best_match env q c st =
     (if score < real_of_int c / 100 then Inr None else Inr (Some (resolve st name)), st1)"
    using assms n f by (simp add: find_best_match_def Let_def resolve_def)
  with n show ?thesis by (auto simp: resolve_def)
qed

theorem C1_witness:
  "skin_names demo_state \<noteq> [] \<and> str_strip demo_env ''AK'' \<noteq> [] \<and>
   fst (search_loop demo_env (real_of_int 0 / 100)
          (search_text_candidates demo_env (str_strip demo_env ''AK'')) (None, - 1, None) demo_state)
     = Inr (Some 0, 3 / 5, Some ''ak'') \<and>
   fst (find_best_match demo_env ''AK'' 0 demo_state) = Inr (Some ''AK-47 | Redline'')"
proof -
  let ?l = "search_loop demo_env (real_of_int 0 / 100)
          (search_text_candidates demo_env (str_strip demo_env ''AK'')) (None, - 1, None) demo_state"
  have h1: "skin_names demo_state \<noteq> []" by (simp add: demo_state_def)
  have h2: "str_strip demo_env ''AK'' \<noteq> []" by code_simp
  have h3: "fst ?l = Inr (Some 0, 3 / 5, Some ''ak'')" by code_simp
  then have h3': "?l = (Inr (Some 0, 3 / 5, Some ''ak''), snd ?l)" by (simp add: prod_eq_iff)
  from C1_below_threshold_or_alias [OF h1 h2 h3'] obtain name where
    n: "list_getitem (skin_names demo_state) 0 = Inr name" and
    r: "find_best_match demo_env ''AK'' 0 demo_state =
         (if 3 / 5 < real_of_int 0 / 100 then Inr None else Inr (Some (resolve demo_state name)), snd ?l)"
    by blast
  from n have "name = ''AK Redline''" by (simp add: list_getitem_def demo_state_def)
  with r have "fst (find_best_match demo_env ''AK'' 0 demo_state) = Inr (Some ''AK-47 | Redline'')"
    by (simp add: resolve_def demo_state_def)
  with h1 h2 h3 show ?thesis by blast
qed

text \<open>
  C3. Threshold monotonicity: for a fixed environment, state and query and two cutoffs
  \<open>0 \<le> c1 \<le> c2\<close>, a call that returns no-match at \<open>c1\<close> returns no-match at \<open>c2\<close>.
\<close>

theorem C3_threshold_monotone:
  assumes "0 \<le> c1" and "c1 \<le> c2"
    and "fst (find_best_match env q c1 st) = Inr None"
  shows "fst (find_best_match env q c2 st) = Inr None"
proof (cases "skin_names st = [] \<or> str_strip env q = []")
  case True
  then show ?thesis by (auto simp: find_best_match_def Let_def)
next
  case False
  let ?ts = "search_text_candidates env (str_strip env q)"
  let ?t1 = "real_of_int c1 / 100" and ?t2 = "real_of_int c2 / 100"
  obtain r st1 where l: "search_loop env ?t1 ?ts (None, - 1, None) st = (r, st1)" by force
  from assms(3) False l obtain bi bs uq where r: "r = Inr (bi, bs, uq)"
    by (cases r) (auto simp: find_best_match_def Let_def)
  have le: "?t1 \<le> ?t2" using assms(2) by simp
  have gt: "- 1 < ?t1" using assms(1) by simp
  have nm: "bi = None \<or> bs < ?t1"
    using assms(3) False l r
    by (auto simp: find_best_match_def Let_def split: option.splits sum.splits if_splits)
  have l2: "search_loop env ?t2 ?ts (None, - 1, None) st = (Inr (bi, bs, uq), st1)"
    using l [unfolded r] le gt _ nm by (rule search_loop_no_match_mono) simp
  show ?thesis
  proof (cases bi)
    case None
    with False l2 show ?thesis by (simp add: find_best_match_def Let_def)
  next
    case (Some idx)
    with nm have "bs < ?t1" by simp
    with le have "bs < ?t2" by simp
    moreover from assms(3) False l r Some obtain name where
      "list_getitem (skin_names st1) idx = Inr name"
      by (cases "list_getitem (skin_names st1) idx") (auto simp: find_best_match_def Let_def)
    ultimately show ?thesis using False l2 Some by (simp add: find_best_match_def Let_def)
  qed
qed

theorem C3_witness:
  "(0::int) \<le> 0 \<and> (0::int) \<le> 50 \<and>
   fst (find_best_match demo_env ''zz'' 0 demo_state) = Inr None \<and>
   fst (find_best_match demo_env ''zz'' 50 demo_state) = Inr None"
proof -
  have h: "fst (find_best_match demo_env ''zz'' 0 demo_state) = Inr None" by code_simp
  from C3_threshold_monotone [of 0 50 demo_env "''zz''" demo_state, OF _ _ h] h
  show ?thesis by simp
qed

text \<open>
  C5. With an empty catalog, or with a query that is empty after \<open>strip\<close>, \<open>find_best_match\<close>
  returns no-match, raises nothing and leaves the whole state as it was: the model is
  neither loaded nor called.
\<close>

theorem C5_guards:
  assumes "skin_names st = [] \<or> str_strip env q = []"
  shows "find_best_match env q c st = (Inr None, st) \<and>
         model_calls (snd (find_best_match env q c st)) = model_calls st \<and>
         embedding_model (snd (find_best_match env q c st)) = embedding_model st"
  using assms by (auto simp: find_best_match_def Let_def)

theorem C5_witness:
  "str_strip demo_env ''   '' = [] \<and>
   find_best_match demo_env ''   '' 50 demo_state = (Inr None, demo_state) \<and>
   skin_names empty_state = [] \<and>
   find_best_match demo_env ''ak'' 50 empty_state = (Inr None, empty_state)"
proof -
  have h1: "str_strip demo_env ''   '' = []" by code_simp
  have h2: "skin_names empty_state = []" by (simp add: empty_state_def)
  from C5_guards [of demo_state demo_env "''   ''" 50] C5_guards [of empty_state demo_env "''ak''" 50] h1 h2
  show ?thesis by simp
qed

text \<open>
  C2. For a query that is not empty after \<open>strip\<close>, the candidate texts are the lowercase
  form first and then the stripped form if it differs. The first search runs on the
  lowercase form; if its top score reaches the threshold (or there is no second text) the
  loop ends there, the second text is never sent to the model, and the state is the one
  after the first search. Otherwise the second search runs on the stripped form from that
  state, and the second candidate replaces the first only on a strictly greater score: on
  a tie the first candidate and its text stay.
\<close>

theorem C2_variant_order_and_early_exit:
  assumes "nq = str_strip env q" and "nq \<noteq> []"
    and "lo = str_lower env nq" and "lo \<noteq> []"
    and "thr = real_of_int c / 100"
    and "vector_search env lo 3 st = (Inr ((i1, s1) # rest1), st1)"
    and "list_getitem (skin_names st) i1 = Inr n1"
  shows "search_text_candidates env nq = (if nq = lo then [lo] else [lo, nq]) \<and>
    (thr \<le> s1 \<or> nq = lo \<longrightarrow>
       search_loop env thr (search_text_candidates env nq) (None, - 1, None) st
         = (Inr (if - 1 < s1 then (Some i1, s1, Some lo) else (None, - 1, None)), st1) \<and>
       snd (find_best_match env q c st) = st1 \<and>
       query_texts (model_calls st1) = query_texts (model_calls st) @ [lo]) \<and>
    (\<forall>i2 s2 rest2 st2 n2.
       s1 < thr \<and> nq \<noteq> lo \<and>
       vector_search env nq 3 st1 = (Inr ((i2, s2) # rest2), st2) \<and>
       list_getitem (skin_names st) i2 = Inr n2 \<longrightarrow>
       search_loop env thr (search_text_candidates env nq) (None, - 1, None) st
         = (Inr (if - 1 < s1 \<and> s2 \<le> s1 then (Some i1, s1, Some lo)
                 else if - 1 < s2 then (Some i2, s2, Some nq)
                 else (None, - 1, None)), st2) \<and>
       snd (find_best_match env q c st) = st2 \<and>
       query_texts (model_calls st2) = query_texts (model_calls st) @ [lo, nq])"
proof -
  note v1 = assms(6) and g1 = assms(7)
  have ne: "skin_names st \<noteq> []" using v1 by (rule vector_search_nonempty_catalog)
  have sq: "str_strip env q \<noteq> []" using assms(1,2) by simp
  have c: "search_text_candidates env nq = (if nq = lo then [lo] else [lo, nq])"
    using assms(3,4) search_text_candidates_eq [of env nq] by simp
  have q1: "query_texts (model_calls st1) = query_texts (model_calls st) @ [lo]"
    using ne v1 by (rule vector_search_query_texts)
  have n1: "skin_names st1 = skin_names st" using v1 by (rule vector_search_skin_names)
  have a: "thr \<le> s1 \<or> nq = lo \<longrightarrow>
       search_loop env thr (search_text_candidates env nq) (None, - 1, None) st
         = (Inr (if - 1 < s1 then (Some i1, s1, Some lo) else (None, - 1, None)), st1) \<and>
       snd (find_best_match env q c st) = st1 \<and>
       query_texts (model_calls st1) = query_texts (model_calls st) @ [lo]"
  proof
    assume h: "thr \<le> s1 \<or> nq = lo"
    have l: "search_loop env thr (search_text_candidates env nq) (None, - 1, None) st
         = (Inr (after_first i1 s1 lo), st1)"
    proof (cases "thr \<le> s1")
      case True
      from search_loop_first_stops [OF v1 g1 True] c show ?thesis by (simp split: if_splits)
    next
      case False
      with h have "nq = lo" and "s1 < thr" by simp_all
      with search_loop_single_below [OF v1 g1 \<open>s1 < thr\<close>] c show ?thesis by simp
    qed
    have "snd (find_best_match env q c st) = st1"
      using ne sq l [unfolded assms(1) assms(5)] by (rule find_best_match_after_loop)
    with l q1 show "search_loop env thr (search_text_candidates env nq) (None, - 1, None) st
         = (Inr (if - 1 < s1 then (Some i1, s1, Some lo) else (None, - 1, None)), st1) \<and>
       snd (find_best_match env q c st) = st1 \<and>
       query_texts (model_calls st1) = query_texts (model_calls st) @ [lo]"
      by (simp add: after_first_def)
  qed
  have b: "\<forall>i2 s2 rest2 st2 n2.
       s1 < thr \<and> nq \<noteq> lo \<and>
       vector_search env nq 3 st1 = (Inr ((i2, s2) # rest2), st2) \<and>
       list_getitem (skin_names st) i2 = Inr n2 \<longrightarrow>
       search_loop env thr (search_text_candidates env nq) (None, - 1, None) st
         = (Inr (if - 1 < s1 \<and> s2 \<le> s1 then (Some i1, s1, Some lo)
                 else if - 1 < s2 then (Some i2, s2, Some nq)
                 else (None, - 1, None)), st2) \<and>
       snd (find_best_match env q c st) = st2 \<and>
       query_texts (model_calls st2) = query_texts (model_calls st) @ [lo, nq]"
  proof (intro allI impI, elim conjE)
    fix i2 s2 rest2 st2 n2
    assume lt: "s1 < thr" and d: "nq \<noteq> lo"
      and v2: "vector_search env nq 3 st1 = (Inr ((i2, s2) # rest2), st2)"
      and g2: "list_getitem (skin_names st) i2 = Inr n2"
    have l: "search_loop env thr (search_text_candidates env nq) (None, - 1, None) st
         = (Inr (after_second i1 s1 lo i2 s2 nq), st2)"
      using search_loop_two_below [OF v1 g1 lt v2 g2] c d by simp
    have s: "snd (find_best_match env q c st) = st2"
      using ne sq l [unfolded assms(1) assms(5)] by (rule find_best_match_after_loop)
    have "skin_names st1 \<noteq> []" using ne n1 by simp
    then have "query_texts (model_calls st2) = query_texts (model_calls st1) @ [nq]"
      using v2 by (rule vector_search_query_texts)
    with q1 have q2: "query_texts (model_calls st2) = query_texts (model_calls st) @ [lo, nq]"
      by simp
    have "after_second i1 s1 lo i2 s2 nq =
        (if - 1 < s1 \<and> s2 \<le> s1 then (Some i1, s1, Some lo)
         else if - 1 < s2 then (Some i2, s2, Some nq) else (None, - 1, None))"
      by (auto simp: after_second_def after_first_def)
    with l s q2 show "search_loop env thr (search_text_candidates env nq) (None, - 1, None) st
         = (Inr (if - 1 < s1 \<and> s2 \<le> s1 then (Some i1, s1, Some lo)
                 else if - 1 < s2 then (Some i2, s2, Some nq)
                 else (None, - 1, None)), st2) \<and>
       snd (find_best_match env q c st) = st2 \<and>
       query_texts (model_calls st2) = query_texts (model_calls st) @ [lo, nq]"
      by simp
  qed
  from c a b show ?thesis by blast
qed

theorem C2_witness:
  "str_strip demo_env ''AK'' = ''AK'' \<and> str_lower demo_env ''AK'' = ''ak'' \<and>
   fst (vector_search demo_env ''ak'' 3 demo_state) = Inr [(0, 3 / 5), (1, - (4 / 5))] \<and>
   fst (vector_search demo_env ''AK'' 3 (snd (vector_search demo_env ''ak'' 3 demo_state)))
     = Inr [(1, 1), (0, 0)] \<and>
   search_text_candidates demo_env ''AK'' = [''ak'', ''AK''] \<and>
   fst (search_loop demo_env 0 [''ak'', ''AK''] (None, - 1, None) demo_state)
     = Inr (Some 0, 3 / 5, Some ''ak'') \<and>
   query_texts (model_calls (snd (find_best_match demo_env ''AK'' 0 demo_state))) = [''ak''] \<and>
   fst (search_loop demo_env (7 / 10) [''ak'', ''AK''] (None, - 1, None) demo_state)
     = Inr (Some 1, 1, Some ''AK'') \<and>
   query_texts (model_calls (snd (find_best_match demo_env ''AK'' 70 demo_state)))
     = [''ak'', ''AK'']"
proof -
  let ?st1 = "snd (vector_search demo_env ''ak'' 3 demo_state)"
  let ?st2 = "snd (vector_search demo_env ''AK'' 3 ?st1)"
  have s: "''AK'' = str_strip demo_env ''AK''" by code_simp
  have l: "''ak'' = str_lower demo_env ''AK''" by code_simp
  have f1: "fst (vector_search demo_env ''ak'' 3 demo_state) = Inr [(0, 3 / 5), (1, - (4 / 5))]"
    by code_simp
  have f2: "fst (vector_search demo_env ''AK'' 3 ?st1) = Inr [(1, 1), (0, 0)]"
    by code_simp
  have v1: "vector_search demo_env ''ak'' 3 demo_state = (Inr ((0, 3 / 5) # [(1, - (4 / 5))]), ?st1)"
    using f1 by (simp add: prod_eq_iff)
  have v2: "vector_search demo_env ''AK'' 3 ?st1 = (Inr ((1, 1) # [(0, 0)]), ?st2)"
    using f2 by (simp add: prod_eq_iff)
  have g1: "list_getitem (skin_names demo_state) 0 = Inr ''AK Redline''"
    by (simp add: list_getitem_def demo_state_def)
  have g2: "list_getitem (skin_names demo_state) 1 = Inr ''AWP | Asiimov''"
    by (simp add: list_getitem_def demo_state_def)
  have m: "model_calls demo_state = []" by (simp add: demo_state_def)
  have t0: "(0::real) = real_of_int 0 / 100" and t70: "(7 / 10 :: real) = real_of_int 70 / 100"
    by simp_all
  have ne: "''AK'' \<noteq> []" "''ak'' \<noteq> []" by simp_all
  note a = C2_variant_order_and_early_exit [OF s ne(1) l ne(2) t0 v1 g1]
  note b = C2_variant_order_and_early_exit [OF s ne(1) l ne(2) t70 v1 g1]
  from a have c: "search_text_candidates demo_env ''AK'' = [''ak'', ''AK'']" by simp
  have "search_loop demo_env 0 [''ak'', ''AK''] (None, - 1, None) demo_state
         = (Inr (Some 0, 3 / 5, Some ''ak''), ?st1) \<and>
       snd (find_best_match demo_env ''AK'' 0 demo_state) = ?st1 \<and>
       query_texts (model_calls ?st1) = [''ak'']"
    using a [THEN conjunct2, THEN conjunct1, unfolded c] m
    by (simp del: search_loop.simps)
  then have a1: "fst (search_loop demo_env 0 [''ak'', ''AK''] (None, - 1, None) demo_state)
     = Inr (Some 0, 3 / 5, Some ''ak'')"
    and a2: "query_texts (model_calls (snd (find_best_match demo_env ''AK'' 0 demo_state))) = [''ak'']"
    by (simp_all del: search_loop.simps)
  have "search_loop demo_env (7 / 10) [''ak'', ''AK''] (None, - 1, None) demo_state
         = (Inr (Some 1, 1, Some ''AK''), ?st2) \<and>
       snd (find_best_match demo_env ''AK'' 70 demo_state) = ?st2 \<and>
       query_texts (model_calls ?st2) = [''ak'', ''AK'']"
    using b [THEN conjunct2, THEN conjunct2, rule_format,
        of 1 1 "[(0, 0)]" ?st2 "''AWP | Asiimov''", unfolded c] v2 g2 m
    by (simp del: search_loop.simps)
  then have b1: "fst (search_loop demo_env (7 / 10) [''ak'', ''AK''] (None, - 1, None) demo_state)
     = Inr (Some 1, 1, Some ''AK'')"
    and b2: "query_texts (model_calls (snd (find_best_match demo_env ''AK'' 70 demo_state)))
     = [''ak'', ''AK'']"
    by (simp_all del: search_loop.simps)
  from s l f1 f2 c a1 a2 b1 b2 show ?thesis by (simp del: search_loop.simps)
qed

text \<open>
  C4 (as stated, refuted). With cutoff 0 a query whose best similarity is negative gets
  no-match, and a query whose lowercase form scores at least 0 gets that form's candidate
  although the original form scores higher on another entry.
\<close>

theorem C4_counterexample:
  "skin_names demo_state \<noteq> [] \<and> str_strip demo_env ''zz'' \<noteq> [] \<and>
   str_strip demo_env ''AK'' \<noteq> [] \<and>
   fst (find_best_match demo_env ''zz'' 0 demo_state) = Inr None \<and>
   fst (vector_search demo_env ''ak'' 3 demo_state) = Inr [(0, 3 / 5), (1, - (4 / 5))] \<and>
   fst (vector_search demo_env ''AK'' 3 demo_state) = Inr [(1, 1), (0, 0)] \<and>
   fst (find_best_match demo_env ''AK'' 0 demo_state) = Inr (Some ''AK-47 | Redline'') \<and>
   resolve demo_state ''AK Redline'' = ''AK-47 | Redline'' \<and>
   resolve demo_state ''AWP | Asiimov'' = ''AWP | Asiimov''"
  by code_simp

text \<open>
  C4 (amended). With cutoff 0, a non-empty catalog and a query that is not empty after
  \<open>strip\<close>: if the top score of the lowercase form is at least 0, the call returns the
  canonical name of that form's top candidate and the original form is not searched; if it
  is negative, the call returns the canonical name of the original form's top candidate
  when that form differs and its top score is at least 0, and no-match otherwise.
\<close>

theorem C4_cutoff_zero:
  assumes "nq = str_strip env q" and "nq \<noteq> []"
    and "lo = str_lower env nq" and "lo \<noteq> []"
    and "vector_search env lo 3 st = (Inr ((i1, s1) # rest1), st1)"
    and "list_getitem (skin_names st) i1 = Inr n1"
  shows "(0 \<le> s1 \<longrightarrow> find_best_match env q 0 st = (Inr (Some (resolve st n1)), st1)) \<and>
    (s1 < 0 \<and> nq = lo \<longrightarrow> find_best_match env q 0 st = (Inr None, st1)) \<and>
    (\<forall>i2 s2 rest2 st2 n2.
       s1 < 0 \<and> nq \<noteq> lo \<and>
       vector_search env nq 3 st1 = (Inr ((i2, s2) # rest2), st2) \<and>
       list_getitem (skin_names st) i2 = Inr n2 \<longrightarrow>
       find_best_match env q 0 st
         = (if 0 \<le> s2 then Inr (Some (resolve st n2)) else Inr None, st2))"
proof -
  note v1 = assms(5) and g1 = assms(6)
  have ne: "skin_names st \<noteq> []" using v1 by (rule vector_search_nonempty_catalog)
  have sq: "str_strip env q \<noteq> []" using assms(1,2) by simp
  have c: "search_text_candidates env (str_strip env q) = (if nq = lo then [lo] else [lo, nq])"
    using assms(1,3,4) search_text_candidates_eq [of env nq] by simp
  have a: "0 \<le> s1 \<longrightarrow> find_best_match env q 0 st = (Inr (Some (resolve st n1)), st1)"
  proof
    assume h: "0 \<le> s1"
    have "search_loop env (real_of_int 0 / 100) (search_text_candidates env (str_strip env q))
            (None, - 1, None) st = (Inr (Some i1, s1, Some lo), st1)"
      using search_loop_first_stops [OF v1 g1, of 0] h c by (simp add: after_first_def)
    from find_best_match_of_loop [OF ne sq this] g1 h
    show "find_best_match env q 0 st = (Inr (Some (resolve st n1)), st1)" by simp
  qed
  have b: "s1 < 0 \<and> nq = lo \<longrightarrow> find_best_match env q 0 st = (Inr None, st1)"
  proof
    assume h: "s1 < 0 \<and> nq = lo"
    obtain bi bs uq where ab: "after_first i1 s1 lo = (bi, bs, uq)" by (cases "after_first i1 s1 lo")
    have "search_loop env (real_of_int 0 / 100) (search_text_candidates env (str_strip env q))
            (None, - 1, None) st = (Inr (bi, bs, uq), st1)"
      using search_loop_single_below [OF v1 g1, of 0] h c ab by simp
    from find_best_match_of_loop [OF ne sq this] g1 h ab
    show "find_best_match env q 0 st = (Inr None, st1)"
      by (auto simp: after_first_def split: if_splits)
  qed
  have d: "\<forall>i2 s2 rest2 st2 n2.
       s1 < 0 \<and> nq \<noteq> lo \<and>
       vector_search env nq 3 st1 = (Inr ((i2, s2) # rest2), st2) \<and>
       list_getitem (skin_names st) i2 = Inr n2 \<longrightarrow>
       find_best_match env q 0 st
         = (if 0 \<le> s2 then Inr (Some (resolve st n2)) else Inr None, st2)"
  proof (intro allI impI, elim conjE)
    fix i2 s2 rest2 st2 n2
    assume lt: "s1 < 0" and ne2: "nq \<noteq> lo"
      and v2: "vector_search env nq 3 st1 = (Inr ((i2, s2) # rest2), st2)"
      and g2: "list_getitem (skin_names st) i2 = Inr n2"
    obtain bi bs uq where ab: "after_second i1 s1 lo i2 s2 nq = (bi, bs, uq)"
      by (cases "after_second i1 s1 lo i2 s2 nq")
    have "search_loop env (real_of_int 0 / 100) (search_text_candidates env (str_strip env q))
            (None, - 1, None) st = (Inr (bi, bs, uq), st2)"
      using search_loop_two_below [OF v1 g1 _ v2 g2, of 0] lt ne2 c ab by simp
    from find_best_match_of_loop [OF ne sq this] g1 g2 lt ab
    show "find_best_match env q 0 st
         = (if 0 \<le> s2 then Inr (Some (resolve st n2)) else Inr None, st2)"
      by (auto simp: after_second_def after_first_def split: if_splits)
  qed
  from a b d show ?thesis by blast
qed

theorem C4_witness:
  "str_strip demo_env ''AK'' = ''AK'' \<and> str_lower demo_env ''AK'' = ''ak'' \<and>
   fst (vector_search demo_env ''ak'' 3 demo_state) = Inr [(0, 3 / 5), (1, - (4 / 5))] \<and>
   fst (find_best_match demo_env ''AK'' 0 demo_state) = Inr (Some ''AK-47 | Redline'') \<and>
   str_strip demo_env ''zz'' = ''zz'' \<and> str_lower demo_env ''zz'' = ''zz'' \<and>
   fst (vector_search demo_env ''zz'' 3 demo_state) = Inr [(0, - (3 / 5)), (1, - (4 / 5))] \<and>
   fst (find_best_match demo_env ''zz'' 0 demo_state) = Inr None \<and>
   str_strip demo_env ''AWP'' = ''AWP'' \<and> str_lower demo_env ''AWP'' = ''awp'' \<and>
   fst (vector_search demo_env ''awp'' 3 demo_state) = Inr [(0, - (3 / 5)), (1, - (4 / 5))] \<and>
   fst (vector_search demo_env ''AWP'' 3 (snd (vector_search demo_env ''awp'' 3 demo_state)))
     = Inr [(1, 1), (0, 0)] \<and>
   fst (find_best_match demo_env ''AWP'' 0 demo_state) = Inr (Some ''AWP | Asiimov'')"
proof -
  let ?t1 = "snd (vector_search demo_env ''awp'' 3 demo_state)"
  let ?t2 = "snd (vector_search demo_env ''AWP'' 3 ?t1)"
  have s'': "''AWP'' = str_strip demo_env ''AWP''" by code_simp
  have l'': "''awp'' = str_lower demo_env ''AWP''" by code_simp
  have h1: "fst (vector_search demo_env ''awp'' 3 demo_state) = Inr [(0, - (3 / 5)), (1, - (4 / 5))]"
    by code_simp
  have h2: "fst (vector_search demo_env ''AWP'' 3 ?t1) = Inr [(1, 1), (0, 0)]"
    by code_simp
  have w1: "vector_search demo_env ''awp'' 3 demo_state
      = (Inr ((0, - (3 / 5)) # [(1, - (4 / 5))]), ?t1)"
    using h1 by (simp add: prod_eq_iff)
  have w2: "vector_search demo_env ''AWP'' 3 ?t1 = (Inr ((1, 1) # [(0, 0)]), ?t2)"
    using h2 by (simp add: prod_eq_iff)
  have k2: "list_getitem (skin_names demo_state) 1 = Inr ''AWP | Asiimov''"
    by (simp add: list_getitem_def demo_state_def)
  have r2: "resolve demo_state ''AWP | Asiimov'' = ''AWP | Asiimov''"
    by (simp add: resolve_def demo_state_def)
  let ?st1 = "snd (vector_search demo_env ''ak'' 3 demo_state)"
  let ?st1' = "snd (vector_search demo_env ''zz'' 3 demo_state)"
  have s: "''AK'' = str_strip demo_env ''AK''" by code_simp
  have l: "''ak'' = str_lower demo_env ''AK''" by code_simp
  have s': "''zz'' = str_strip demo_env ''zz''" by code_simp
  have l': "''zz'' = str_lower demo_env ''zz''" by code_simp
  have f1: "fst (vector_search demo_env ''ak'' 3 demo_state) = Inr [(0, 3 / 5), (1, - (4 / 5))]"
    by code_simp
  have f1': "fst (vector_search demo_env ''zz'' 3 demo_state) = Inr [(0, - (3 / 5)), (1, - (4 / 5))]"
    by code_simp
  have v1: "vector_search demo_env ''ak'' 3 demo_state = (Inr ((0, 3 / 5) # [(1, - (4 / 5))]), ?st1)"
    using f1 by (simp add: prod_eq_iff)
  have v1': "vector_search demo_env ''zz'' 3 demo_state
      = (Inr ((0, - (3 / 5)) # [(1, - (4 / 5))]), ?st1')"
    using f1' by (simp add: prod_eq_iff)
  have g1: "list_getitem (skin_names demo_state) 0 = Inr ''AK Redline''"
    by (simp add: list_getitem_def demo_state_def)
  have r: "resolve demo_state ''AK Redline'' = ''AK-47 | Redline''"
    by (simp add: resolve_def demo_state_def)
  from C4_cutoff_zero [OF s _ l _ v1 g1] r
  have a: "fst (find_best_match demo_env ''AK'' 0 demo_state) = Inr (Some ''AK-47 | Redline'')"
    by simp
  from C4_cutoff_zero [OF s' _ l' _ v1' g1]
  have b: "fst (find_best_match demo_env ''zz'' 0 demo_state) = Inr None"
    by simp
  from C4_cutoff_zero [OF s'' _ l'' _ w1 g1, THEN conjunct2, THEN conjunct2, rule_format,
      of 1 1 "[(0, 0)]" ?t2 "''AWP | Asiimov''"] w2 k2 r2
  have c: "fst (find_best_match demo_env ''AWP'' 0 demo_state) = Inr (Some ''AWP | Asiimov'')"
    by simp
  from s l f1 a s' l' f1' b s'' l'' h1 h2 c show ?thesis by simp
qed

text \<open>
  C6. After \<open>_load_alias_mapping\<close> every catalog name is a key of the alias map. The explicit
  entries are those of the mapping file, by its shape: when the file holds a dict whose
  \<open>alias_to_en\<close> is a dict, every entry \<open>alias: v\<close> of that inner dict maps \<open>alias\<close> to
  \<open>str(v)\<close>; when it holds any other dict, every entry of the dict itself does (and
  \<open>str\<close> of a string is the string, and an entry is a member of the JSON object). A catalog
  name that is not a key of the dict read maps to itself. With the file absent, unreadable
  or not holding a dict the map is the identity on the catalog. Resolving a string that is
  not a key gives the string back.
\<close>

theorem C6_alias_map_covers_catalog:
  "skin_names (load_alias_mapping env st) = skin_names st \<and>
   (\<forall>name \<in> set (skin_names st). alias_to_canonical (load_alias_mapping env st) name \<noteq> None) \<and>
   (\<forall>ms inner alias v.
      name_mapping_file env = Holds (JDict ms) \<and>
      members_dict ms ''alias_to_en'' = Some (JDict inner) \<and>
      members_dict inner alias = Some v \<longrightarrow>
      alias_to_canonical (load_alias_mapping env st) alias = Some (py_str env v)) \<and>
   (\<forall>ms alias v.
      name_mapping_file env = Holds (JDict ms) \<and>
      (\<forall>inner. members_dict ms ''alias_to_en'' \<noteq> Some (JDict inner)) \<and>
      members_dict ms alias = Some v \<longrightarrow>
      alias_to_canonical (load_alias_mapping env st) alias = Some (py_str env v)) \<and>
   (\<forall>canonical. py_str env (JStr canonical) = canonical) \<and>
   (\<forall>ms alias v. distinct (map fst ms) \<and> (alias, v) \<in> set ms \<longrightarrow>
      members_dict ms alias = Some v) \<and>
   (\<forall>ms inner. \<forall>name \<in> set (skin_names st).
      name_mapping_file env = Holds (JDict ms) \<and>
      members_dict ms ''alias_to_en'' = Some (JDict inner) \<and>
      members_dict inner name = None \<longrightarrow>
      alias_to_canonical (load_alias_mapping env st) name = Some name) \<and>
   (\<forall>ms. \<forall>name \<in> set (skin_names st).
      name_mapping_file env = Holds (JDict ms) \<and>
      (\<forall>inner. members_dict ms ''alias_to_en'' \<noteq> Some (JDict inner)) \<and>
      members_dict ms name = None \<longrightarrow>
      alias_to_canonical (load_alias_mapping env st) name = Some name) \<and>
   (name_mapping_file env = Absent \<or> name_mapping_file env = Corrupt \<or>
    (\<exists>data. name_mapping_file env = Holds data \<and> (\<forall>ms. data \<noteq> JDict ms)) \<longrightarrow>
      alias_to_canonical (load_alias_mapping env st) = identity_map (skin_names st)) \<and>
   (\<forall>x. alias_to_canonical (load_alias_mapping env st) x = None \<longrightarrow>
      resolve (load_alias_mapping env st) x = x)"
proof -
  let ?a = "alias_to_canonical (load_alias_mapping env st)"
  have c1: "skin_names (load_alias_mapping env st) = skin_names st"
    by (rule load_alias_mapping_skin_names)
  have c2: "\<forall>name \<in> set (skin_names st). ?a name \<noteq> None"
    by (simp add: load_alias_mapping_apply split: option.splits)
  have c3: "\<forall>ms inner alias v.
      name_mapping_file env = Holds (JDict ms) \<and>
      members_dict ms ''alias_to_en'' = Some (JDict inner) \<and>
      members_dict inner alias = Some v \<longrightarrow> ?a alias = Some (py_str env v)"
    by (simp add: load_alias_mapping_apply read_alias_map_nested)
  have c4: "\<forall>ms alias v.
      name_mapping_file env = Holds (JDict ms) \<and>
      (\<forall>inner. members_dict ms ''alias_to_en'' \<noteq> Some (JDict inner)) \<and>
      members_dict ms alias = Some v \<longrightarrow> ?a alias = Some (py_str env v)"
    by (simp add: load_alias_mapping_apply read_alias_map_flat)
  have c5: "\<forall>canonical. py_str env (JStr canonical) = canonical"
    by (simp add: py_str_def)
  have c5': "\<forall>ms alias v. distinct (map fst ms) \<and> (alias, v) \<in> set ms \<longrightarrow>
      members_dict ms alias = Some (v :: json)"
    by (simp add: members_dict_member)
  have c6: "\<forall>ms inner. \<forall>name \<in> set (skin_names st).
      name_mapping_file env = Holds (JDict ms) \<and>
      members_dict ms ''alias_to_en'' = Some (JDict inner) \<and>
      members_dict inner name = None \<longrightarrow> ?a name = Some name"
    by (simp add: load_alias_mapping_apply read_alias_map_nested)
  have c7: "\<forall>ms. \<forall>name \<in> set (skin_names st).
      name_mapping_file env = Holds (JDict ms) \<and>
      (\<forall>inner. members_dict ms ''alias_to_en'' \<noteq> Some (JDict inner)) \<and>
      members_dict ms name = None \<longrightarrow> ?a name = Some name"
    by (simp add: load_alias_mapping_apply read_alias_map_flat)
  have c8: "name_mapping_file env = Absent \<or> name_mapping_file env = Corrupt \<or>
    (\<exists>data. name_mapping_file env = Holds data \<and> (\<forall>ms. data \<noteq> JDict ms)) \<longrightarrow>
      ?a = identity_map (skin_names st)"
  proof
    assume "name_mapping_file env = Absent \<or> name_mapping_file env = Corrupt \<or>
      (\<exists>data. name_mapping_file env = Holds data \<and> (\<forall>ms. data \<noteq> JDict ms))"
    then have "read_alias_map env = Map.empty" by (rule read_alias_map_no_file)
    then show "?a = identity_map (skin_names st)"
      by (simp add: load_alias_mapping_def)
  qed
  have c9: "\<forall>x. ?a x = None \<longrightarrow> resolve (load_alias_mapping env st) x = x"
    by (simp add: resolve_def)
  from c1 c2 c3 c4 c5 c5' c6 c7 c8 c9 show ?thesis by blast
qed

theorem C6_witness:
  "''AK Redline'' \<in> set (skin_names demo_state) \<and>
   ''AWP | Asiimov'' \<in> set (skin_names demo_state) \<and>
   name_mapping_file demo_env
     = Holds (JDict [(''alias_to_en'', JDict [(''AK Redline'', JStr ''AK-47 | Redline'')])]) \<and>
   alias_to_canonical (load_alias_mapping demo_env demo_state) ''AK Redline''
     = Some ''AK-47 | Redline'' \<and>
   alias_to_canonical (load_alias_mapping demo_env demo_state) ''AWP | Asiimov''
     = Some ''AWP | Asiimov'' \<and>
   name_mapping_file flat_env = Holds (JDict [(''AK Redline'', JStr ''AK-47 | Redline'')]) \<and>
   alias_to_canonical (load_alias_mapping flat_env demo_state) ''AK Redline''
     = Some ''AK-47 | Redline'' \<and>
   alias_to_canonical (load_alias_mapping flat_env demo_state) ''AWP | Asiimov''
     = Some ''AWP | Asiimov'' \<and>
   name_mapping_file no_file_env = Absent \<and>
   alias_to_canonical (load_alias_mapping no_file_env demo_state)
     = identity_map (skin_names demo_state) \<and>
   alias_to_canonical (load_alias_mapping demo_env demo_state) ''M4A4'' = None \<and>
   resolve (load_alias_mapping demo_env demo_state) ''M4A4'' = ''M4A4''"
proof -
  let ?inner = "[(''AK Redline'', JStr ''AK-47 | Redline'')]"
  let ?ms = "[(''alias_to_en'', JDict ?inner)]"
  have m1: "''AK Redline'' \<in> set (skin_names demo_state)"
    and m2: "''AWP | Asiimov'' \<in> set (skin_names demo_state)"
    by (simp_all add: demo_state_def)
  have fn: "name_mapping_file demo_env = Holds (JDict ?ms)" by (simp add: demo_env_def)
  have ff: "name_mapping_file flat_env = Holds (JDict ?inner)"
    by (simp add: flat_env_def demo_env_def)
  have f0: "name_mapping_file no_file_env = Absent" by (simp add: no_file_env_def)
  have k: "members_dict ?ms ''alias_to_en'' = Some (JDict ?inner)"
    by (simp add: members_dict_def)
  have k': "\<forall>inner. members_dict ?inner ''alias_to_en'' \<noteq> Some (JDict inner)"
    by (simp add: members_dict_def)
  have e1: "members_dict ?inner ''AK Redline'' = Some (JStr ''AK-47 | Redline'')"
    and e2: "members_dict ?inner ''AWP | Asiimov'' = None"
    by (simp_all add: members_dict_def)
  have u: "alias_to_canonical (load_alias_mapping demo_env demo_state) ''M4A4'' = None"
    by (simp add: load_alias_mapping_apply read_alias_map_def demo_env_def members_dict_def
        comprehension_def demo_state_def)
  note a = C6_alias_map_covers_catalog [of demo_env demo_state]
  note b = C6_alias_map_covers_catalog [of flat_env demo_state]
  note c = C6_alias_map_covers_catalog [of no_file_env demo_state]
  from a have s: "py_str demo_env (JStr ''AK-47 | Redline'') = ''AK-47 | Redline''" by blast
  from b have s': "py_str flat_env (JStr ''AK-47 | Redline'') = ''AK-47 | Redline''" by blast
  from a fn k e1 have "alias_to_canonical (load_alias_mapping demo_env demo_state) ''AK Redline''
     = Some (py_str demo_env (JStr ''AK-47 | Redline''))" by blast
  with s have r1: "alias_to_canonical (load_alias_mapping demo_env demo_state) ''AK Redline''
     = Some ''AK-47 | Redline''" by simp
  from a fn k e2 m2
  have r2: "alias_to_canonical (load_alias_mapping demo_env demo_state) ''AWP | Asiimov''
     = Some ''AWP | Asiimov''" by blast
  from b ff k' e1 have "alias_to_canonical (load_alias_mapping flat_env demo_state) ''AK Redline''
     = Some (py_str flat_env (JStr ''AK-47 | Redline''))" by blast
  with s' have r3: "alias_to_canonical (load_alias_mapping flat_env demo_state) ''AK Redline''
     = Some ''AK-47 | Redline''" by simp
  from b ff k' e2 m2
  have r4: "alias_to_canonical (load_alias_mapping flat_env demo_state) ''AWP | Asiimov''
     = Some ''AWP | Asiimov''" by blast
  from c f0 have r5: "alias_to_canonical (load_alias_mapping no_file_env demo_state)
     = identity_map (skin_names demo_state)" by blast
  from a u have r6: "resolve (load_alias_mapping demo_env demo_state) ''M4A4'' = ''M4A4''"
    by blast
  from m1 m2 fn r1 r2 ff r3 r4 f0 r5 u r6 show ?thesis by blast
qed






text \<open>
  C9. When \<open>find_best_match\<close> returns a string and the alias map is the one
  \<open>_load_alias_mapping\<close> builds for the catalog, the string is the alias-map value of the
  catalog name at some index below the catalog's length.
\<close>

theorem C9_result_in_alias_image:
  assumes "find_best_match env q c st = (Inr (Some r), st')"
    and "alias_to_canonical st = alias_to_canonical (load_alias_mapping env st)"
  shows "\<exists>i<length (skin_names st). alias_to_canonical st (skin_names st ! i) = Some r"
proof -
  from find_best_match_Some [OF assms(1)] obtain name where
    n: "name \<in> set (skin_names st)" and r: "r = resolve st name" by blast
  from n have "alias_to_canonical (load_alias_mapping env st) name \<noteq> None"
    by (simp add: load_alias_mapping_apply split: option.splits)
  with assms(2) r have "alias_to_canonical st name = Some r"
    by (auto simp: resolve_def)
  moreover from n obtain i where "i < length (skin_names st)" "skin_names st ! i = name"
    by (auto simp: in_set_conv_nth)
  ultimately show ?thesis by blast
qed

theorem C9_witness:
  "fst (find_best_match demo_env ''AK'' 0 demo_state) = Inr (Some ''AK-47 | Redline'') \<and>
   alias_to_canonical demo_state = alias_to_canonical (load_alias_mapping demo_env demo_state) \<and>
   (\<exists>i<length (skin_names demo_state).
      alias_to_canonical demo_state (skin_names demo_state ! i) = Some ''AK-47 | Redline'')"
proof -
  let ?c = "find_best_match demo_env ''AK'' 0 demo_state"
  have h: "fst ?c = Inr (Some ''AK-47 | Redline'')" by code_simp
  then have h': "?c = (Inr (Some ''AK-47 | Redline''), snd ?c)" by (simp add: prod_eq_iff)
  from C9_result_in_alias_image [OF h' demo_state_loaded] h demo_state_loaded
  show ?thesis by blast
qed

text \<open>
  C10. Whatever \<open>find_best_match\<close> returns or raises, the catalog list, the alias map, the
  model name and the device are unchanged after the call; the model, the embedding matrix
  (with its dimension and cache file) and the vector index are written only when they were
  \<open>None\<close> before the call.
\<close>

theorem C10_catalog_and_alias_unchanged:
  "skin_names (snd (find_best_match env q c st)) = skin_names st \<and>
   alias_to_canonical (snd (find_best_match env q c st)) = alias_to_canonical st \<and>
   embedding_model_name (snd (find_best_match env q c st)) = embedding_model_name st \<and>
   embedding_device (snd (find_best_match env q c st)) = embedding_device st \<and>
   embedding_cache_path (snd (find_best_match env q c st)) = embedding_cache_path st \<and>
   (embedding_model st \<noteq> None \<longrightarrow>
      embedding_model (snd (find_best_match env q c st)) = embedding_model st) \<and>
   (embeddings st \<noteq> None \<longrightarrow>
      embeddings (snd (find_best_match env q c st)) = embeddings st \<and>
      vector_dim (snd (find_best_match env q c st)) = vector_dim st \<and>
      files (snd (find_best_match env q c st)) = files st \<and>
      cache_file (snd (find_best_match env q c st)) = cache_file st) \<and>
   (vector_index st \<noteq> None \<longrightarrow>
      vector_index (snd (find_best_match env q c st)) = vector_index st)"
  using find_best_match_frame_fields [of env q c st] find_best_match_lazy [of st env q c]
  by (simp add: lazy_init_def cache_file_def)

theorem C10_witness:
  "embedding_model warm_state \<noteq> None \<and> embeddings warm_state \<noteq> None \<and>
   vector_index warm_state \<noteq> None \<and>
   fst (find_best_match faiss_env ''AK'' 70 warm_state) = Inr (Some ''AWP | Asiimov'') \<and>
   skin_names (snd (find_best_match faiss_env ''AK'' 70 warm_state)) = skin_names warm_state \<and>
   alias_to_canonical (snd (find_best_match faiss_env ''AK'' 70 warm_state))
     = alias_to_canonical warm_state \<and>
   embedding_model (snd (find_best_match faiss_env ''AK'' 70 warm_state))
     = embedding_model warm_state \<and>
   embeddings (snd (find_best_match faiss_env ''AK'' 70 warm_state)) = embeddings warm_state \<and>
   vector_index (snd (find_best_match faiss_env ''AK'' 70 warm_state)) = vector_index warm_state"
proof -
  have h1: "embedding_model warm_state \<noteq> None" by code_simp
  have h2: "embeddings warm_state \<noteq> None" by code_simp
  have h3: "vector_index warm_state \<noteq> None" by code_simp
  have r: "fst (find_best_match faiss_env ''AK'' 70 warm_state) = Inr (Some ''AWP | Asiimov'')"
    by code_simp
  from C10_catalog_and_alias_unchanged [of faiss_env "''AK''" 70 warm_state] h1 h2 h3 r
  show ?thesis by simp
qed

end
